theory Spec2Isabelle
  imports Main
begin

section \<open>Python strings\<close>

text \<open>
  A Python \<open>str\<close> is modelled as a \<open>string\<close>, each \<open>char\<close> standing for one code point
  below 256. \<open>py_isspace\<close> lists the code points below 256 for which \<open>str.isspace\<close> holds;
  they are the characters removed by \<open>str.strip()\<close> and matched by the regular expression
  \<open>\s\<close>.
\<close>

definition py_isspace :: "char \<Rightarrow> bool" where
  "py_isspace c = (c \<in> set [CHR 0x09, CHR 0x0A, CHR 0x0B, CHR 0x0C, CHR 0x0D,
                             CHR 0x1C, CHR 0x1D, CHR 0x1E, CHR 0x1F, CHR 0x20,
                             CHR 0x85, CHR 0xA0])"

text \<open>\<open>s.strip()\<close>\<close>

definition strip :: "string \<Rightarrow> string" where
  "strip s = rev (dropWhile py_isspace (rev (dropWhile py_isspace s)))"

text \<open>\<open>sep.join(xs)\<close>\<close>

fun join :: "string \<Rightarrow> string list \<Rightarrow> string" where
  "join sep [] = []"
| "join sep [x] = x"
| "join sep (x # y # ys) = x @ sep @ join sep (y # ys)"

text \<open>\<open>s.startswith(p)\<close> and \<open>sub in s\<close>\<close>

fun starts_with :: "string \<Rightarrow> string \<Rightarrow> bool" where
  "starts_with s [] = True"
| "starts_with [] (p # ps) = False"
| "starts_with (c # cs) (p # ps) = (c = p \<and> starts_with cs ps)"

fun str_in :: "string \<Rightarrow> string \<Rightarrow> bool" where
  "str_in sub [] = (sub = [])"
| "str_in sub (c # cs) = (starts_with (c # cs) sub \<or> str_in sub cs)"

text \<open>\<open>str(n)\<close> for an integer, as the f-strings and \<open>str.format\<close> print it.\<close>

fun str_nat :: "nat \<Rightarrow> string" where
  "str_nat n = (if n < 10 then [''0123456789'' ! n]
                else str_nat (n div 10) @ [''0123456789'' ! (n mod 10)])"

definition str_int :: "int \<Rightarrow> string" where
  "str_int i = (if i < 0 then ''-'' @ str_nat (nat (- i)) else str_nat (nat i))"

subsection \<open>The title pattern\<close>

text \<open>
  \<open>re.sub(r'.*Guidebook:\s*', '', s)\<close>. The dot matches every character but the newline and
  the star is greedy, so a match that starts at some position runs to the last
  \<open>Guidebook:\<close> of the line it starts in, and then over all the white space that follows.
  \<open>last_guidebook\<close> gives what follows the last \<open>Guidebook:\<close> of a line, \<open>match_guidebook\<close>
  what follows a match anchored at the start of its argument, and \<open>re_sub_guidebook\<close> scans
  from left to right, dropping each match and copying every other character.
\<close>

fun last_guidebook :: "string \<Rightarrow> string option" where
  "last_guidebook [] = None"
| "last_guidebook (c # cs) =
     (case last_guidebook cs of
        Some r \<Rightarrow> Some r
      | None \<Rightarrow> if starts_with (c # cs) ''Guidebook:'' then Some (drop 10 (c # cs)) else None)"

definition match_guidebook :: "string \<Rightarrow> string option" where
  "match_guidebook s =
     (case last_guidebook (takeWhile (\<lambda>c. c \<noteq> CHR 0x0A) s) of
        None \<Rightarrow> None
      | Some after \<Rightarrow> Some (dropWhile py_isspace (after @ dropWhile (\<lambda>c. c \<noteq> CHR 0x0A) s)))"

function re_sub_guidebook :: "string \<Rightarrow> string" where
  "re_sub_guidebook [] = []"
| "re_sub_guidebook (c # cs) =
     (case match_guidebook (c # cs) of
        Some r \<Rightarrow> re_sub_guidebook r
      | None \<Rightarrow> c # re_sub_guidebook cs)"
  by pat_completeness auto
termination
proof (relation "measure length")
  show "wf (measure length)" by simp
next
  fix c :: char and cs r :: string
  assume m: "match_guidebook (c # cs) = Some r"
  let ?s = "c # cs"
  let ?line = "takeWhile (\<lambda>c. c \<noteq> CHR 0x0A) ?s"
  let ?rest = "dropWhile (\<lambda>c. c \<noteq> CHR 0x0A) ?s"
  have shorter: "last_guidebook t = Some a \<Longrightarrow> length a < length t" for t a
    by (induction t arbitrary: a) (auto split: option.splits if_splits)
  from m obtain a where a: "last_guidebook ?line = Some a"
    and r: "r = dropWhile py_isspace (a @ ?rest)"
    by (auto simp: match_guidebook_def split: option.splits)
  have "length r \<le> length (a @ ?rest)"
    unfolding r by (rule length_dropWhile_le)
  also have "\<dots> < length ?line + length ?rest"
    using shorter [OF a] by simp
  also have "\<dots> = length ?s"
    by (metis length_append takeWhile_dropWhile_id)
  finally show "(r, c # cs) \<in> measure length" by simp
next
  fix c :: char and cs :: string
  show "(cs, c # cs) \<in> measure length" by simp
qed

section \<open>The parsed document\<close>

text \<open>
  BeautifulSoup turns the markup into a tree of tags and strings. A tag is modelled by its
  name, its \<open>class\<close> attribute (the list of class tokens, \<open>None\<close> when the tag has no such
  attribute), its \<open>src\<close> attribute (\<open>None\<close> when absent) and its children; these are the
  only attributes the converters read. Strings are plain text nodes: comments and other
  special strings are outside the model. A tag is always true as a condition, so the tests
  \<open>if not guide\<close>, \<open>if title\<close> and the like ask whether a search found something; the
  loops over \<open>children\<close> skip strings, which have no tag name.
\<close>

datatype node = Text string | Elem string "string list option" "string option" "node list"

text \<open>\<open>tag.children\<close>, \<open>tag.get('class', [])\<close> and \<open>tag.get('src', '')\<close>\<close>

fun children_of :: "node \<Rightarrow> node list" where
  "children_of (Text s) = []"
| "children_of (Elem n c s kids) = kids"

fun get_class :: "node \<Rightarrow> string list" where
  "get_class (Text s) = []"
| "get_class (Elem n c s kids) = (case c of None \<Rightarrow> [] | Some cs \<Rightarrow> cs)"

fun get_src :: "node \<Rightarrow> string" where
  "get_src (Text s) = []"
| "get_src (Elem n c s kids) = (case s of None \<Rightarrow> [] | Some v \<Rightarrow> v)"

text \<open>\<open>tag.descendants\<close>: every node below the tag, in document order.\<close>

fun descendants :: "node \<Rightarrow> node list" where
  "descendants (Text s) = []"
| "descendants (Elem n c s kids) = concat (map (\<lambda>k. k # descendants k) kids)"

text \<open>
  \<open>get_text()\<close> concatenates the strings below a node; \<open>get_text(strip=True)\<close> strips each
  of them first and leaves out those that become empty.
\<close>

fun all_strings :: "node \<Rightarrow> string list" where
  "all_strings (Text s) = [s]"
| "all_strings (Elem n c s kids) = concat (map all_strings kids)"

definition get_text :: "node \<Rightarrow> string" where
  "get_text e = concat (all_strings e)"

definition get_text_strip :: "node \<Rightarrow> string" where
  "get_text_strip e = concat (filter (\<lambda>s. s \<noteq> []) (map strip (all_strings e)))"

text \<open>
  Searching. A search for the class \<open>w\<close> accepts a tag when one of its class tokens is \<open>w\<close>
  or when the tokens joined by single spaces are \<open>w\<close>; a tag without a \<open>class\<close> attribute is
  not accepted by any search for a class, the search for the empty class included (that
  one accepts the tags whose attribute is present and empty). \<open>find_all\<close> filters the descendants,
  \<open>find\<close> takes the first hit, and \<open>find_all_direct\<close> is \<open>find_all(name, recursive=False)\<close>.
\<close>

definition class_matches :: "string list option \<Rightarrow> string \<Rightarrow> bool" where
  "class_matches attr w =
     (case attr of None \<Rightarrow> False | Some cs \<Rightarrow> w \<in> set cs \<or> join '' '' cs = w)"

fun tag_matches :: "string \<Rightarrow> string option \<Rightarrow> node \<Rightarrow> bool" where
  "tag_matches nm want (Text s) = False"
| "tag_matches nm want (Elem n c s kids) =
     (n = nm \<and> (case want of None \<Rightarrow> True | Some w \<Rightarrow> class_matches c w))"

definition find_all :: "string \<Rightarrow> string option \<Rightarrow> node \<Rightarrow> node list" where
  "find_all nm want e = filter (tag_matches nm want) (descendants e)"

definition find :: "string \<Rightarrow> string option \<Rightarrow> node \<Rightarrow> node option" where
  "find nm want e = (case find_all nm want e of [] \<Rightarrow> None | x # xs \<Rightarrow> Some x)"

definition find_all_direct :: "string \<Rightarrow> node \<Rightarrow> node list" where
  "find_all_direct nm e = filter (tag_matches nm None) (children_of e)"

section \<open>Dialogs\<close>

text \<open>
  The loop of \<open>extract_dialog_text\<close> over the children of the text container: the first
  string child that is, once stripped, one of the four punctuation marks is what gets
  appended to the sentence; the loop then breaks.
\<close>

fun punctuation :: "node list \<Rightarrow> string" where
  "punctuation [] = []"
| "punctuation (Text s # rest) =
     (if strip s \<in> set [''.'', ''?'', ''!'', '',''] then strip s else punctuation rest)"
| "punctuation (Elem n c s kids # rest) = punctuation rest"

text \<open>What \<open>extract_dialog_text\<close> does once it holds the text container.\<close>

definition dialog_text_of :: "node \<Rightarrow> string option" where
  "dialog_text_of text_div =
     (let german_parts = map get_text (find_all ''span'' (Some ''dotted'') text_div);
          german_text = join '' '' german_parts @ punctuation (children_of text_div);
          english_text = (case find ''span'' (Some ''cAF'') text_div of
                            None \<Rightarrow> [] | Some english_span \<Rightarrow> get_text english_span)
      in if german_text \<noteq> [] \<and> english_text \<noteq> []
         then Some (german_text @ ''\<newline>'' @ english_text)
         else if german_text \<noteq> [] then Some german_text
         else None)"

definition extract_dialog_text :: "node \<Rightarrow> string option" where
  "extract_dialog_text phrase_div =
     (case find ''div'' (Some []) phrase_div of
        None \<Rightarrow> None
      | Some text_div \<Rightarrow> dialog_text_of text_div)"

fun storyline_lines :: "node list \<Rightarrow> string list" where
  "storyline_lines [] = []"
| "storyline_lines (storyline # rest) =
     (case find ''div'' (Some ''phrase'') storyline of
        None \<Rightarrow> storyline_lines rest
      | Some phrase \<Rightarrow>
          (case extract_dialog_text phrase of
             None \<Rightarrow> storyline_lines rest
           | Some text \<Rightarrow> if text \<noteq> [] then text # storyline_lines rest
                          else storyline_lines rest))"

definition process_dialog :: "node \<Rightarrow> string option" where
  "process_dialog dialog_div =
     (let lines = storyline_lines (find_all ''div'' (Some ''storyline'') dialog_div)
      in if lines \<noteq> [] then Some (join ''\<newline>\<newline>'' lines) else None)"

section \<open>Tips\<close>

text \<open>
  The loop of \<open>process_tip\<close> over the children of the text division of a caption. It
  collects the strings and the spans that are not translations into \<open>german_parts\<close>, keeps
  the text of the translation span in \<open>english_text\<close>, and breaks at the first \<open>br\<close>.
\<close>

fun caption_scan :: "node list \<Rightarrow> string list \<times> string \<Rightarrow> string list \<times> string" where
  "caption_scan [] acc = acc"
| "caption_scan (Text s # rest) (german_parts, english_text) =
     caption_scan rest (german_parts @ [s], english_text)"
| "caption_scan (Elem n c s kids # rest) (german_parts, english_text) =
     (if n = ''span'' then
        (if ''cAF'' \<in> set (get_class (Elem n c s kids))
         then caption_scan rest (german_parts, get_text (Elem n c s kids))
         else caption_scan rest (german_parts @ [get_text (Elem n c s kids)], english_text))
      else if n = ''br'' then (german_parts, english_text)
      else caption_scan rest (german_parts, english_text))"

text \<open>What \<open>process_tip\<close> has collected for one illustration.\<close>

record illustration =
  img_src :: "string option"
  caption_german :: "string option"
  caption_english :: "string option"

text \<open>The loop over the direct \<open>div\<close> children of a caption; playback divisions are skipped.\<close>

fun caption_divs :: "node list \<Rightarrow> illustration \<Rightarrow> illustration" where
  "caption_divs [] st = st"
| "caption_divs (inner_div # rest) st =
     (if ''playback'' \<in> set (get_class inner_div) then caption_divs rest st
      else (case caption_scan (children_of inner_div) ([], []) of
              (german_parts, english_text) \<Rightarrow>
                caption_divs rest
                  (st\<lparr>caption_german := Some (strip (concat german_parts)),
                      caption_english := Some (strip english_text)\<rparr>)))"

text \<open>The loop over the children of an illustration.\<close>

fun illustration_scan :: "node list \<Rightarrow> illustration \<Rightarrow> illustration" where
  "illustration_scan [] st = st"
| "illustration_scan (Text s # rest) st = illustration_scan rest st"
| "illustration_scan (Elem n c s kids # rest) st =
     (if n = ''img'' then
        (let src = get_src (Elem n c s kids)
         in if src \<noteq> [] \<and> \<not> str_in ''yandex'' src
            then illustration_scan rest (st\<lparr>img_src := Some src\<rparr>)
            else illustration_scan rest st)
      else if n = ''div'' \<and> ''caption'' \<in> set (get_class (Elem n c s kids)) then
        illustration_scan rest (caption_divs (find_all_direct ''div'' (Elem n c s kids)) st)
      else illustration_scan rest st)"

text \<open>The lines appended for an illustration once its children have been scanned.\<close>

definition figure_lines :: "illustration \<Rightarrow> string list" where
  "figure_lines st =
     (case img_src st of
        None \<Rightarrow> []
      | Some src \<Rightarrow>
          if src = [] then []
          else
            (let caption_parts =
                   (case caption_german st of
                      None \<Rightarrow> [] | Some g \<Rightarrow> if g \<noteq> [] then [g] else []) @
                   (case caption_english st of
                      None \<Rightarrow> []
                    | Some e \<Rightarrow> if e \<noteq> [] then [''<br><em>'' @ e @ ''</em>''] else []);
                 caption_html = concat caption_parts
             in [''>'',
                 (if caption_html \<noteq> []
                  then ''> <figure><img src='' @ [CHR 0x22] @ src @ [CHR 0x22] @ '' alt='' @ [CHR 0x22]
                       @ ''Illustration'' @ [CHR 0x22] @ ''><figcaption>''
                       @ caption_html @ ''</figcaption></figure>''
                  else ''> <figure><img src='' @ [CHR 0x22] @ src @ [CHR 0x22] @ '' alt='' @ [CHR 0x22]
                       @ ''Illustration'' @ [CHR 0x22] @ ''></figure>''),
                 ''>'']))"

text \<open>The lines appended for one child of the tip.\<close>

fun tip_child_lines :: "node \<Rightarrow> string list" where
  "tip_child_lines (Text s) = []"
| "tip_child_lines (Elem n c s kids) =
     (if n = ''p'' then
        (let text = get_text (Elem n c s kids)
         in if text \<noteq> [] \<and> strip text \<noteq> [] then [''> '' @ text, ''>''] else [])
      else if n = ''div'' \<and> ''illustration'' \<in> set (get_class (Elem n c s kids)) then
        figure_lines
          (illustration_scan kids
             \<lparr>img_src = None, caption_german = None, caption_english = None\<rparr>)
      else if n = ''hr'' then []
      else [])"

text \<open>The two lines of the title, and the lines as assembled before the final loop.\<close>

definition tip_title_lines :: "node \<Rightarrow> string list" where
  "tip_title_lines tip_div =
     (case find ''h3'' None tip_div of
        None \<Rightarrow> []
      | Some title \<Rightarrow> [''> **'' @ get_text title @ ''**'', ''>''])"

definition tip_lines :: "node \<Rightarrow> string list" where
  "tip_lines tip_div =
     tip_title_lines tip_div @ concat (map tip_child_lines (children_of tip_div))"

text \<open>\<open>while lines and lines[-1] == ">": lines.pop()\<close>\<close>

function pop_trailing :: "string list \<Rightarrow> string list" where
  "pop_trailing lines =
     (if lines \<noteq> [] \<and> last lines = ''>'' then pop_trailing (butlast lines) else lines)"
  by pat_completeness auto
termination
  by (relation "measure length") auto

declare pop_trailing.simps [simp del]

definition process_tip :: "node \<Rightarrow> string option" where
  "process_tip tip_div =
     (let lines = pop_trailing (tip_lines tip_div)
      in if lines \<noteq> [] then Some (join ''\<newline>'' lines) else None)"

section \<open>A page\<close>

text \<open>The fragments appended to \<open>markdown_content\<close> for one child of the guide.\<close>

fun guide_child :: "node \<Rightarrow> string list" where
  "guide_child (Text s) = []"
| "guide_child (Elem n c s kids) =
     (if n \<in> set [''h3'', ''h5''] then
        (let text = get_text_strip (Elem n c s kids)
         in if n = ''h3'' \<and> ''zero'' \<notin> set (get_class (Elem n c s kids))
            then [''\<newline>### '' @ text @ ''\<newline>'']
            else if n = ''h5'' then [''\<newline>##### '' @ text @ ''\<newline>'']
            else [])
      else if n = ''hr'' then
        (if ''blue'' \<notin> set (get_class (Elem n c s kids)) then [''\<newline>---\<newline>''] else [])
      else if n = ''div'' \<and> ''dialogue'' \<in> set (get_class (Elem n c s kids)) then
        (case process_dialog (Elem n c s kids) of
           None \<Rightarrow> []
         | Some dialog_text \<Rightarrow>
             if dialog_text \<noteq> [] then [''\<newline>'' @ dialog_text @ ''\<newline>''] else [])
      else if n = ''div'' \<and> ''guide-tip'' \<in> set (get_class (Elem n c s kids)) then
        (case process_tip (Elem n c s kids) of
           None \<Rightarrow> []
         | Some tip_text \<Rightarrow>
             if tip_text \<noteq> [] then [''\<newline>'' @ tip_text @ ''\<newline>''] else [])
      else [])"

text \<open>The title line, if the guide has a title.\<close>

definition title_lines :: "node \<Rightarrow> int option \<Rightarrow> string list" where
  "title_lines guide lesson_number =
     (case find ''h3'' (Some ''zero'') guide of
        None \<Rightarrow> []
      | Some title_elem \<Rightarrow>
          (let title_text = re_sub_guidebook (get_text_strip title_elem);
               title_text = (case lesson_number of
                               None \<Rightarrow> title_text
                             | Some k \<Rightarrow> ''Lesson '' @ str_int k @ '': '' @ title_text)
           in [''# '' @ title_text @ ''\<newline>'']))"

text \<open>
  \<open>extract_content\<close>. The parser is a parameter: for a string it gives either the root of
  the tree that \<open>BeautifulSoup(html, 'html.parser')\<close> builds or the exception that the
  parser raises on markup it rejects. The call is the first statement of the function and
  stands in no \<open>try\<close>, so the exception leaves \<open>extract_content\<close>; nothing after the
  parse raises.
\<close>

datatype error = ParserError

definition extract_content ::
  "(string \<Rightarrow> error + node) \<Rightarrow> string \<Rightarrow> string \<Rightarrow> int option \<Rightarrow> error + string" where
  "extract_content html_parser html base_url lesson_number =
     (case html_parser html of
        Inl e \<Rightarrow> Inl e
      | Inr soup \<Rightarrow>
          (case find ''div'' (Some ''guide'') soup of
             None \<Rightarrow> Inr ''Error: Could not find guide content''
           | Some guide \<Rightarrow>
               Inr (join ''\<newline>''
                      (title_lines guide lesson_number @
                       concat (map guide_child (children_of guide))))))"

section \<open>The batch\<close>

text \<open>
  What one request comes to: a response with its status and body, or an exception raised
  while the page was requested or read. The network is a parameter that gives this for
  each address. The \<open>try\<close> of \<open>fetch_page_async\<close> also covers the call of
  \<open>extract_content\<close>, so an exception of the parser gives an absent result.
\<close>

datatype response = Response int string | Failed

definition fetch_page_async ::
  "(string \<Rightarrow> error + node) \<Rightarrow> (string \<Rightarrow> response) \<Rightarrow> string \<Rightarrow> int \<Rightarrow>
     int \<times> string option" where
  "fetch_page_async html_parser session url unit_num =
     (case session url of
        Response status html \<Rightarrow>
          if status = 200
          then (case extract_content html_parser html url (Some unit_num) of
                  Inr content \<Rightarrow> (unit_num, Some content)
                | Inl e \<Rightarrow> (unit_num, None))
          else (unit_num, None)
      | Failed \<Rightarrow> (unit_num, None))"

text \<open>
  \<open>fetch_all_pages\<close> makes one task for each number of \<open>range(start, end + 1)\<close>;
  \<open>asyncio.gather\<close> returns the results of the tasks in the order of the tasks.
\<close>

definition fetch_all_pages ::
  "(string \<Rightarrow> error + node) \<Rightarrow> (string \<Rightarrow> response) \<Rightarrow> int \<Rightarrow> int \<Rightarrow> (int \<times> string option) list" where
  "fetch_all_pages html_parser session start end' =
     map (\<lambda>i. fetch_page_async html_parser session
                 (''https://duome.eu/guidebook/en/de/'' @ str_int i) i)
       [start..end']"

text \<open>
  \<open>combine_and_save\<close>. \<open>valid_results\<close> are the results with a document, sorted by unit
  number (the sort is stable); the loop appends each document and, except after the last
  one, the separator; the file system is a map from file names to contents.
\<close>

fun valid_results :: "(int \<times> string option) list \<Rightarrow> (int \<times> string) list" where
  "valid_results [] = []"
| "valid_results ((num, content) # rest) =
     (case content of
        None \<Rightarrow> valid_results rest
      | Some c \<Rightarrow> (num, c) # valid_results rest)"

fun combined_content :: "nat \<Rightarrow> nat \<Rightarrow> (int \<times> string) list \<Rightarrow> string list" where
  "combined_content i len [] = []"
| "combined_content i len ((unit_num, content) # rest) =
     (if int i < int len - 1
      then content # ''\<newline>\<newline>---\<newline>\<newline>'' # combined_content (Suc i) len rest
      else content # combined_content (Suc i) len rest)"

definition final_content :: "(int \<times> string option) list \<Rightarrow> string" where
  "final_content results =
     (let valid = sort_key fst (valid_results results)
      in concat (combined_content 0 (length valid) valid))"

definition combine_and_save ::
  "(int \<times> string option) list \<Rightarrow> string \<Rightarrow> (string \<rightharpoonup> string) \<Rightarrow> string \<times> (string \<rightharpoonup> string)" where
  "combine_and_save results filename files =
     (filename, files(filename \<mapsto> final_content results))"

section \<open>Notions used in the statements\<close>

text \<open>The node is a tag with the given name.\<close>

fun is_elem :: "string \<Rightarrow> node \<Rightarrow> bool" where
  "is_elem nm (Text s) = False"
| "is_elem nm (Elem n c s kids) = (n = nm)"

text \<open>
  A \<open>div\<close> whose \<open>class\<close> attribute is present and empty. The parser stores an empty
  attribute as no token or as one empty token, depending on its version.
\<close>

fun plain_div :: "node \<Rightarrow> bool" where
  "plain_div (Text s) = False"
| "plain_div (Elem n c s kids) =
     (n = ''div'' \<and> (case c of None \<Rightarrow> False | Some cs \<Rightarrow> cs = [] \<or> [] \<in> set cs))"

text \<open>
  The lines that the paragraph and division children of a tip contribute, in the order of
  the children.
\<close>

definition tip_body_lines :: "node list \<Rightarrow> string list" where
  "tip_body_lines kids =
     concat (map tip_child_lines (filter (\<lambda>k. is_elem ''p'' k \<or> is_elem ''div'' k) kids))"

text \<open>
  The \<open>img\<close> children of an illustration that can supply its image: those with a source
  that is not empty and does not contain \<open>yandex\<close>.
\<close>

definition usable_imgs :: "node list \<Rightarrow> node list" where
  "usable_imgs kids =
     filter (\<lambda>k. is_elem ''img'' k \<and> get_src k \<noteq> [] \<and> \<not> str_in ''yandex'' (get_src k)) kids"

text \<open>
  The image source as claim C8 words it: the source of the last \<open>img\<close> child whose source
  does not contain \<open>yandex\<close>.
\<close>

definition claimed_img_src :: "node list \<Rightarrow> string option" where
  "claimed_img_src kids =
     (case rev (filter (\<lambda>k. is_elem ''img'' k \<and> \<not> str_in ''yandex'' (get_src k)) kids) of
        [] \<Rightarrow> None
      | k # others \<Rightarrow> Some (get_src k))"

text \<open>The parser at a page whose tree is known.\<close>

definition page_tree :: "node \<Rightarrow> string \<Rightarrow> error + node" where
  "page_tree soup html = Inr soup"

text \<open>
  The parser at a page that it rejects. The parser of the standard library raises
  \<open>AssertionError\<close> at a marked section with an unknown keyword, such as
  \<open><![foo bar]>\<close>.
\<close>

definition page_rejected :: "string \<Rightarrow> error + node" where
  "page_rejected html = Inl ParserError"

section \<open>Properties of the batch\<close>

lemma fst_fetch_page_async: "fst (fetch_page_async html_parser session url unit_num) = unit_num"
  by (simp add: fetch_page_async_def split: response.split sum.split)

text \<open>
  C3. Whatever the parser and the network do, the result list of a batch over the range
  from \<open>start\<close> to \<open>end\<close> inclusive carries the identifiers of the range, each once and in
  ascending order: none is missing, none appears twice, and there are as many results as
  identifiers.
\<close>

theorem fetch_all_pages_one_entry_per_identifier:
  "map fst (fetch_all_pages html_parser session start end') = [start..end']
   \<and> distinct (map fst (fetch_all_pages html_parser session start end'))
   \<and> set (map fst (fetch_all_pages html_parser session start end')) = {start..end'}
   \<and> int (length (fetch_all_pages html_parser session start end')) = max 0 (end' - start + 1)"
proof -
  have ids: "map fst (fetch_all_pages html_parser session start end') = [start..end']"
    by (simp add: fetch_all_pages_def comp_def fst_fetch_page_async)
  have len: "length (fetch_all_pages html_parser session start end') = length [start..end']"
    by (simp add: fetch_all_pages_def)
  show ?thesis
    unfolding ids len by simp
qed

subsection \<open>The combiner\<close>

lemma combined_content_join:
  "len = i + length xs \<Longrightarrow>
   concat (combined_content i len xs) = join ''\<newline>\<newline>---\<newline>\<newline>'' (map snd xs)"
proof (induction xs arbitrary: i)
  case Nil
  show ?case by simp
next
  case (Cons x xs)
  obtain u c where x: "x = (u, c)" by (cases x)
  show ?case
  proof (cases xs)
    case Nil
    with Cons.prems x show ?thesis by simp
  next
    case (Cons y ys)
    have "concat (combined_content (Suc i) len xs) =
            join ''\<newline>\<newline>---\<newline>\<newline>'' (map snd xs)"
      using Cons.prems by (intro Cons.IH) simp
    with Cons Cons.prems x show ?thesis by simp
  qed
qed

lemma set_valid_results: "set (valid_results rs) = {(n, c). (n, Some c) \<in> set rs}"
  by (induction rs rule: valid_results.induct) (auto split: option.splits)

lemma valid_results_map_filter:
  "map fst (valid_results rs) = map fst (filter (\<lambda>r. snd r \<noteq> None) rs)"
  by (induction rs rule: valid_results.induct) (auto split: option.splits)

lemma distinct_valid_results:
  "distinct (map fst rs) \<Longrightarrow> distinct (map fst (valid_results rs))"
  by (simp add: valid_results_map_filter distinct_map_filter)

lemma final_content_join:
  "final_content rs =
     join ''\<newline>\<newline>---\<newline>\<newline>'' (map snd (sort_key fst (valid_results rs)))"
  by (simp add: final_content_def combined_content_join)

lemma distinct_map_insort_key:
  "distinct (map f (insort_key f x xs)) = (f x \<notin> f ` set xs \<and> distinct (map f xs))"
  by (induction xs) (auto simp: set_insort_key)

lemma distinct_map_sort_key: "distinct (map f (sort_key f xs)) = distinct (map f xs)"
  by (induction xs) (auto simp: distinct_map_insort_key)

text \<open>
  C2. In a Batch Result Set every identifier appears once. For such a result list the file
  that \<open>combine_and_save\<close> writes holds the documents of a list \<open>docs\<close> joined by the
  separator (between entries, not after the last), where \<open>docs\<close> has strictly ascending
  identifiers and consists of exactly the results that are present. The result set of the
  documents \<open>B\<close> for 2 and \<open>A\<close> for 1 gives the file content \<open>A\<close>, separator, \<open>B\<close>.
\<close>

theorem combine_and_save_content:
  assumes "distinct (map fst results)"
  shows "(\<exists>docs. combine_and_save results filename files =
                   (filename,
                    files(filename \<mapsto> join ''\<newline>\<newline>---\<newline>\<newline>'' (map snd docs)))
               \<and> sorted_wrt (<) (map fst docs)
               \<and> set docs = {(n, c). (n, Some c) \<in> set results})
         \<and> combine_and_save [(2, Some ''B''), (1, Some ''A'')] filename files =
             (filename, files(filename \<mapsto> ''A\<newline>\<newline>---\<newline>\<newline>B''))"
proof -
  let ?docs = "sort_key fst (valid_results results)"
  have "combine_and_save results filename files =
          (filename, files(filename \<mapsto> join ''\<newline>\<newline>---\<newline>\<newline>'' (map snd ?docs)))"
    by (simp add: combine_and_save_def final_content_join)
  moreover have "sorted_wrt (<) (map fst ?docs)"
    using assms
    by (simp add: strict_sorted_iff distinct_map_sort_key distinct_valid_results)
  moreover have "set ?docs = {(n, c). (n, Some c) \<in> set results}"
    by (simp add: set_valid_results)
  ultimately have general:
    "\<exists>docs. combine_and_save results filename files =
              (filename,
               files(filename \<mapsto> join ''\<newline>\<newline>---\<newline>\<newline>'' (map snd docs)))
          \<and> sorted_wrt (<) (map fst docs)
          \<and> set docs = {(n, c). (n, Some c) \<in> set results}"
    by blast
  have example:
    "combine_and_save [(2, Some ''B''), (1, Some ''A'')] filename files =
       (filename, files(filename \<mapsto> ''A\<newline>\<newline>---\<newline>\<newline>B''))"
    by (simp add: combine_and_save_def final_content_def)
  from general example show ?thesis by blast
qed

theorem combine_and_save_content_witness:
  "distinct (map fst [(3::int, Some ''C''), (7, None), (1, Some ''A'')])
   \<and> (\<exists>docs. combine_and_save [(3, Some ''C''), (7, None), (1, Some ''A'')]
                ''all.md'' Map.empty =
                (''all.md'',
                 [''all.md'' \<mapsto> join ''\<newline>\<newline>---\<newline>\<newline>'' (map snd docs)])
            \<and> sorted_wrt (<) (map fst docs)
            \<and> set docs =
                {(n, c). (n, Some c) \<in> set [(3::int, Some ''C''), (7, None), (1, Some ''A'')]})
   \<and> combine_and_save [(2, Some ''B''), (1, Some ''A'')] ''all.md'' Map.empty =
       (''all.md'', [''all.md'' \<mapsto> ''A\<newline>\<newline>---\<newline>\<newline>B''])"
  using combine_and_save_content
          [of "[(3, Some ''C''), (7, None), (1, Some ''A'')]" "''all.md''" Map.empty]
  by simp

section \<open>Properties of the search\<close>

lemma join_space_token:
  assumes "join '' '' cs = w" and "w \<noteq> []" and "CHR '' '' \<notin> set w"
  shows "w \<in> set cs"
proof -
  consider "cs = []" | x where "cs = [x]" | x y ys where "cs = x # y # ys"
    by (cases cs rule: remdups_adj.cases) auto
  then show ?thesis
  proof cases
    case 1
    with assms show ?thesis by simp
  next
    case 2
    with assms show ?thesis by simp
  next
    case 3
    with assms(1) have "CHR '' '' \<in> set w" by auto
    with assms(3) show ?thesis by simp
  qed
qed

lemma class_matches_token:
  assumes "w \<noteq> []" and "CHR '' '' \<notin> set w"
  shows "class_matches c w = (w \<in> set (case c of None \<Rightarrow> [] | Some cs \<Rightarrow> cs))"
proof (cases c)
  case None
  with assms show ?thesis by (simp add: class_matches_def)
next
  case (Some cs)
  have "join '' '' cs = w \<Longrightarrow> w \<in> set cs"
    using assms by (blast intro: join_space_token)
  with Some show ?thesis by (auto simp: class_matches_def)
qed

lemma tag_matches_token:
  assumes "w \<noteq> []" and "CHR '' '' \<notin> set w"
  shows "tag_matches nm (Some w) e = (is_elem nm e \<and> w \<in> set (get_class e))"
  using assms by (cases e) (simp_all add: class_matches_token)

lemma find_None_iff:
  "find nm want e = None \<longleftrightarrow> (\<forall>d\<in>set (descendants e). \<not> tag_matches nm want d)"
proof -
  have "find nm want e = None \<longleftrightarrow> find_all nm want e = []"
    by (simp add: find_def split: list.splits)
  then show ?thesis by (simp add: find_all_def filter_empty_conv)
qed

section \<open>Properties of a page\<close>

text \<open>
  C1, as amended. When the parser accepts the markup and no node of the tree carries the
  class \<open>guide\<close>, \<open>extract_content\<close> returns the fixed error string and raises nothing,
  whatever the base address and the lesson number.
\<close>

theorem extract_content_no_guide:
  assumes "html_parser html = Inr soup"
    and "\<forall>e\<in>set (descendants soup). ''guide'' \<notin> set (get_class e)"
  shows "extract_content html_parser html base_url lesson_number =
           Inr ''Error: Could not find guide content''"
proof -
  have "find ''div'' (Some ''guide'') soup = None"
    unfolding find_None_iff using assms(2) by (simp add: tag_matches_token)
  with assms(1) show ?thesis by (simp add: extract_content_def)
qed

theorem extract_content_no_guide_witness:
  "extract_content
     (page_tree (Elem ''[document]'' None None
        [Elem ''html'' None None
           [Elem ''body'' None None
              [Elem ''div'' (Some [''content'']) None
                 [Elem ''p'' None None [Text ''Not found'']]]]]))
     ''<html><body><div class=content><p>Not found</p></div></body></html>''
     ''https://duome.eu/guidebook/en/de/999'' (Some 999) =
   Inr ''Error: Could not find guide content''"
  by (rule extract_content_no_guide [OF page_tree_def]) simp

text \<open>
  A page without any guide container that the parser rejects: the exception of the parser
  leaves \<open>extract_content\<close>, and no error string is returned.
\<close>

theorem extract_content_parser_error_counterexample:
  "extract_content page_rejected ''<html><body><![foo bar]><p>x</p></body></html>''
     ''https://duome.eu/guidebook/en/de/14'' None = Inl ParserError"
  by (simp add: extract_content_def page_rejected_def)

lemma guide_child_shape: "guide_child e = [] \<or> (\<exists>r. guide_child e = [CHR 0x0A # r])"
proof (cases e)
  case (Text s)
  then show ?thesis by simp
next
  case (Elem n c s kids)
  show ?thesis
    unfolding Elem by (simp add: Let_def split: option.split)
qed

lemma guide_child_newline:
  assumes "f \<in> set (guide_child e)"
  shows "\<exists>r. f = CHR 0x0A # r"
  using assms guide_child_shape [of e] by auto

lemma join_newline_fragments:
  assumes "\<forall>f\<in>set fs. \<exists>r. f = CHR 0x0A # r"
  shows "\<not> starts_with (join ''\<newline>'' fs) ''# ''"
proof (cases fs rule: remdups_adj.cases)
  case 1
  then show ?thesis by simp
next
  case (2 x)
  with assms obtain r where "x = CHR 0x0A # r" by auto
  with 2 show ?thesis by simp
next
  case (3 x y ys)
  with assms obtain r where "x = CHR 0x0A # r" by auto
  with 3 show ?thesis by simp
qed

text \<open>
  C10. When the guide container holds no \<open>h3\<close> carrying the class \<open>zero\<close>, the output
  of \<open>extract_content\<close> is the body fragments joined by newlines and nothing else: it does
  not begin with the title mark, and it is the same with a lesson number as without one.
\<close>

theorem extract_content_no_title:
  assumes "html_parser html = Inr soup"
    and "find ''div'' (Some ''guide'') soup = Some guide"
    and "\<forall>e\<in>set (descendants guide). \<not> (is_elem ''h3'' e \<and> ''zero'' \<in> set (get_class e))"
  shows "extract_content html_parser html base_url lesson_number =
           Inr (join ''\<newline>'' (concat (map guide_child (children_of guide))))
         \<and> \<not> starts_with (join ''\<newline>'' (concat (map guide_child (children_of guide)))) ''# ''
         \<and> extract_content html_parser html base_url (Some k) =
             extract_content html_parser html base_url None"
proof -
  have "find ''h3'' (Some ''zero'') guide = None"
    unfolding find_None_iff using assms(3) by (simp add: tag_matches_token)
  then have no_title: "title_lines guide ln = []" for ln
    by (simp add: title_lines_def)
  have body: "extract_content html_parser html base_url ln =
                Inr (join ''\<newline>'' (concat (map guide_child (children_of guide))))" for ln
    using assms(1,2) by (simp add: extract_content_def no_title)
  have "\<forall>f\<in>set (concat (map guide_child (children_of guide))). \<exists>r. f = CHR 0x0A # r"
    by (auto dest: guide_child_newline)
  then have "\<not> starts_with (join ''\<newline>'' (concat (map guide_child (children_of guide)))) ''# ''"
    by (rule join_newline_fragments)
  then show ?thesis by (simp add: body)
qed

theorem extract_content_no_title_witness:
  "extract_content
     (page_tree (Elem ''[document]'' None None
        [Elem ''div'' (Some [''guide'']) None
           [Elem ''h3'' None None [Text ''Greetings''], Elem ''hr'' None None []]]))
     ''<div class=guide><h3>Greetings</h3><hr></div>'' ''https://duome.eu/guidebook/en/de/14''
     (Some 14) =
   Inr ''\<newline>### Greetings\<newline>\<newline>\<newline>---\<newline>''"
proof -
  let ?guide = "Elem ''div'' (Some [''guide'']) None
           [Elem ''h3'' None None [Text ''Greetings''], Elem ''hr'' None None []]"
  let ?soup = "Elem ''[document]'' None None [?guide]"
  have p: "page_tree ?soup ''<div class=guide><h3>Greetings</h3><hr></div>'' = Inr ?soup"
    by (simp add: page_tree_def)
  have g: "find ''div'' (Some ''guide'') ?soup = Some ?guide"
    by (simp add: find_def find_all_def class_matches_def)
  have h: "\<forall>e\<in>set (descendants ?guide). \<not> (is_elem ''h3'' e \<and> ''zero'' \<in> set (get_class e))"
    by simp
  show ?thesis
    using extract_content_no_title
            [of "page_tree ?soup" "''<div class=guide><h3>Greetings</h3><hr></div>''" ?soup
                ?guide "''https://duome.eu/guidebook/en/de/14''" "Some 14" 14, OF p g h]
    by (simp add: get_text_strip_def strip_def py_isspace_def)
qed

text \<open>
  C7, as amended. In the body traversal a direct child \<open>h3\<close> of the guide that does not
  carry the class \<open>zero\<close> contributes a \<open>###\<close> line and one that carries it contributes
  nothing, while a direct child \<open>h5\<close> contributes a \<open>#####\<close> line whether or not it
  carries \<open>zero\<close>; the contribution stands between those of the children before and
  after the header.
\<close>

theorem extract_content_headers:
  assumes "html_parser html = Inr soup"
    and "find ''div'' (Some ''guide'') soup =
             Some (Elem n c s (before @ [Elem h hc hs hkids] @ after))"
    and "h = ''h3'' \<or> h = ''h5''"
  shows "extract_content html_parser html base_url lesson_number =
           Inr (join ''\<newline>''
             (title_lines (Elem n c s (before @ [Elem h hc hs hkids] @ after)) lesson_number @
              concat (map guide_child before) @
              (if h = ''h5'' then [''\<newline>##### '' @ get_text_strip (Elem h hc hs hkids) @ ''\<newline>'']
               else if ''zero'' \<in> set (get_class (Elem h hc hs hkids)) then []
               else [''\<newline>### '' @ get_text_strip (Elem h hc hs hkids) @ ''\<newline>'']) @
              concat (map guide_child after)))"
  using assms by (auto simp: extract_content_def)

theorem extract_content_headers_witness:
  "extract_content
     (page_tree (Elem ''[document]'' None None
        [Elem ''div'' (Some [''guide'']) None
           [Elem ''h3'' (Some [''zero'']) None [Text ''German Guidebook: Greet''],
            Elem ''h5'' None None [Text ''Key phrases'']]]))
     ''<div class=guide><h3 class=zero>German Guidebook: Greet</h3><h5>Key phrases</h5></div>''
     ''https://duome.eu/guidebook/en/de/14'' (Some 14) =
   Inr ''# Lesson 14: Greet\<newline>\<newline>\<newline>##### Key phrases\<newline>''"
proof -
  let ?title = "Elem ''h3'' (Some [''zero'']) None [Text ''German Guidebook: Greet'']"
  let ?sub = "Elem ''h5'' None None [Text ''Key phrases'']"
  let ?soup = "Elem ''[document]'' None None [Elem ''div'' (Some [''guide'']) None [?title, ?sub]]"
  let ?html = "''<div class=guide><h3 class=zero>German Guidebook: Greet</h3><h5>Key phrases</h5></div>''"
  have p: "page_tree ?soup ?html = Inr ?soup"
    by (simp add: page_tree_def)
  have g: "find ''div'' (Some ''guide'') ?soup =
             Some (Elem ''div'' (Some [''guide'']) None
                     ([] @ [Elem ''h3'' (Some [''zero'']) None [Text ''German Guidebook: Greet'']]
                      @ [?sub]))"
    by (simp add: find_def find_all_def class_matches_def)
  have h: "''h3'' = ''h3'' \<or> ''h3'' = ''h5''"
    by simp
  have t: "re_sub_guidebook ''German Guidebook: Greet'' = ''Greet''"
    by (simp add: match_guidebook_def py_isspace_def)
  show ?thesis
    using extract_content_headers
            [of "page_tree ?soup" ?html ?soup "''div''" "Some [''guide'']" None "[]" "''h3''"
                "Some [''zero'']" None "[Text ''German Guidebook: Greet'']" "[?sub]"
                "''https://duome.eu/guidebook/en/de/14''" "Some 14", OF p g h]
    by (simp add: title_lines_def find_def find_all_def class_matches_def get_text_strip_def
          strip_def py_isspace_def t str_int_def del: re_sub_guidebook.simps)
qed

text \<open>
  A level-5 header that carries the class \<open>zero\<close> is not the title and is emitted in the
  body.
\<close>

theorem extract_content_h5_zero_counterexample:
  "extract_content
     (page_tree (Elem ''[document]'' None None
        [Elem ''div'' (Some [''guide'']) None
           [Elem ''h5'' (Some [''zero'']) None [Text ''Tip'']]]))
     ''<div class=guide><h5 class=zero>Tip</h5></div>''
     ''https://duome.eu/guidebook/en/de/14'' None =
   Inr ''\<newline>##### Tip\<newline>''"
  by (simp add: extract_content_def page_tree_def find_def find_all_def class_matches_def
        title_lines_def get_text_strip_def strip_def py_isspace_def)

section \<open>Properties of dialogs\<close>

lemma join_empty:
  assumes "join sep cs = []"
  shows "cs = [] \<or> [] \<in> set cs"
  using assms by (cases cs rule: remdups_adj.cases) auto

lemma tag_matches_plain_div: "tag_matches ''div'' (Some []) e = plain_div e"
proof (cases e)
  case (Text s)
  then show ?thesis by simp
next
  case (Elem n c s kids)
  show ?thesis
  proof (cases c)
    case None
    with Elem show ?thesis by (simp add: class_matches_def)
  next
    case (Some cs)
    have "join '' '' cs = [] \<Longrightarrow> cs = [] \<or> [] \<in> set cs"
      by (rule join_empty)
    moreover have "cs = [] \<Longrightarrow> join '' '' cs = []"
      by simp
    ultimately show ?thesis
      using Elem Some by (auto simp: class_matches_def)
  qed
qed

text \<open>
  C9, as amended. The text container of \<open>extract_dialog_text\<close> is the first \<open>div\<close> below the
  phrase, at any depth and in document order, whose \<open>class\<close> attribute is empty; when the
  phrase has no such descendant the function returns nothing.
\<close>

theorem extract_dialog_text_container:
  "extract_dialog_text phrase_div =
     (case filter plain_div (descendants phrase_div) of
        [] \<Rightarrow> None
      | text_div # others \<Rightarrow> dialog_text_of text_div)"
proof -
  have "tag_matches ''div'' (Some []) = plain_div"
    by (rule ext) (rule tag_matches_plain_div)
  then show ?thesis
    by (simp add: extract_dialog_text_def find_def find_all_def split: list.splits)
qed

text \<open>
  A phrase whose only child is the playback division, with a \<open>div\<close> of empty class nested
  inside it: no child of the phrase has an empty class, and a dialog line is produced. And
  a phrase whose only child is a \<open>span\<close> of empty class that holds the words: a child with
  an empty class is there, and no dialog line is produced.
\<close>

theorem extract_dialog_text_nested_counterexample:
  "map get_class
     (children_of
        (Elem ''div'' (Some [''phrase'']) None
           [Elem ''div'' (Some [''playback'']) None
              [Elem ''div'' (Some []) None
                 [Elem ''span'' (Some [''dotted'']) None [Text ''Hallo'']]]])) = [[''playback'']]
   \<and> extract_dialog_text
        (Elem ''div'' (Some [''phrase'']) None
           [Elem ''div'' (Some [''playback'']) None
              [Elem ''div'' (Some []) None
                 [Elem ''span'' (Some [''dotted'']) None [Text ''Hallo'']]]]) = Some ''Hallo''
   \<and> extract_dialog_text
        (Elem ''div'' (Some [''phrase'']) None
           [Elem ''span'' (Some []) None
              [Elem ''span'' (Some [''dotted'']) None [Text ''Hallo'']]]) = None"
  by (simp add: extract_dialog_text_def dialog_text_of_def find_def find_all_def
        class_matches_def get_text_def strip_def py_isspace_def)

lemma strip_padded_mark:
  assumes "\<forall>ch\<in>set before. py_isspace ch" and "\<forall>ch\<in>set after. py_isspace ch"
    and "\<not> py_isspace m"
  shows "strip (before @ [m] @ after) = [m]"
proof -
  have "dropWhile py_isspace (before @ [m] @ after) = [m] @ after"
    using assms(1,3) by (simp add: dropWhile_append2)
  moreover have "dropWhile py_isspace (rev after @ [m]) = dropWhile py_isspace [m]"
    by (rule dropWhile_append2) (use assms(2) in simp)
  moreover have "dropWhile py_isspace [m] = [m]"
    using assms(3) by simp
  ultimately show ?thesis by (simp add: strip_def)
qed

lemma text_nodes_no_match:
  "filter (tag_matches nm want) (concat (map (\<lambda>k. k # descendants k) (map Text ts))) = []"
  by (induction ts) simp_all

text \<open>
  C4. A phrase whose text container, the \<open>div\<close> with the empty class, holds the dotted
  spans \<open>Ich\<close> and \<open>bin\<close>, a string child that is one of the four punctuation marks
  once stripped, any further string children, and the translation span \<open>I am\<close> gives two
  lines: the words joined by a single space with the mark appended without a space, and
  the translation. Later string children add nothing. With the full stop as the mark the
  result is \<open>Ich bin.\<close> over \<open>I am\<close>.
\<close>

theorem extract_dialog_text_example:
  assumes "\<forall>ch\<in>set before. py_isspace ch" and "\<forall>ch\<in>set after. py_isspace ch"
    and "mark \<in> set [''.'', ''?'', ''!'', '','']"
  shows "extract_dialog_text
           (Elem ''div'' (Some [''phrase'']) None
              [Elem ''div'' (Some [''playback'']) None [],
               Elem ''div'' (Some []) None
                 ([Elem ''span'' (Some [''dotted'']) None [Text ''Ich''],
                   Elem ''span'' (Some [''dotted'']) None [Text ''bin''],
                   Text (before @ mark @ after)] @
                  map Text later @
                  [Elem ''span'' (Some [''cAF'']) None [Text ''I am'']])]) =
         Some (''Ich bin'' @ mark @ ''\<newline>I am'')"
proof -
  let ?kids = "[Elem ''span'' (Some [''dotted'']) None [Text ''Ich''],
                Elem ''span'' (Some [''dotted'']) None [Text ''bin''],
                Text (before @ mark @ after)] @
               map Text later @
               [Elem ''span'' (Some [''cAF'']) None [Text ''I am'']]"
  let ?text_div = "Elem ''div'' (Some []) None ?kids"
  have container:
    "find ''div'' (Some [])
       (Elem ''div'' (Some [''phrase'']) None
          [Elem ''div'' (Some [''playback'']) None [], ?text_div]) = Some ?text_div"
    by (simp add: find_def find_all_def class_matches_def)
  have dotted:
    "find_all ''span'' (Some ''dotted'') ?text_div =
       [Elem ''span'' (Some [''dotted'']) None [Text ''Ich''],
        Elem ''span'' (Some [''dotted'']) None [Text ''bin'']]"
    by (simp add: find_all_def class_matches_def text_nodes_no_match)
  have translation:
    "find ''span'' (Some ''cAF'') ?text_div =
       Some (Elem ''span'' (Some [''cAF'']) None [Text ''I am''])"
    by (simp add: find_def find_all_def class_matches_def text_nodes_no_match)
  from assms(3) obtain m where m: "mark = [m]" "\<not> py_isspace m"
    by (auto simp: py_isspace_def)
  have stripped: "strip (before @ mark @ after) = mark"
    unfolding m(1) using assms(1,2) m(2) by (rule strip_padded_mark)
  have mark: "punctuation (children_of ?text_div) = mark"
    using stripped assms(3) by simp
  have "dialog_text_of ?text_div = Some (''Ich bin'' @ mark @ ''\<newline>I am'')"
    unfolding dialog_text_of_def dotted translation mark
    by (simp add: get_text_def)
  with container show ?thesis
    by (simp add: extract_dialog_text_def)
qed

theorem extract_dialog_text_example_witness:
  "extract_dialog_text
     (Elem ''div'' (Some [''phrase'']) None
        [Elem ''div'' (Some [''playback'']) None [],
         Elem ''div'' (Some []) None
           [Elem ''span'' (Some [''dotted'']) None [Text ''Ich''],
            Elem ''span'' (Some [''dotted'']) None [Text ''bin''],
            Text '' .\<newline>'', Text ''!'', Text '' '',
            Elem ''span'' (Some [''cAF'']) None [Text ''I am'']]]) =
   Some ''Ich bin.\<newline>I am''"
  using extract_dialog_text_example
          [of "'' ''" "''\<newline>''" "''.''" "[''!'', '' '']"]
  by (simp add: py_isspace_def)

section \<open>Properties of tips\<close>

lemma pop_trailing_eq: "pop_trailing ls = rev (dropWhile (\<lambda>l. l = ''>'') (rev ls))"
proof (induction ls rule: rev_induct)
  case Nil
  show ?case by (subst pop_trailing.simps) simp
next
  case (snoc x xs)
  show ?case
    by (subst pop_trailing.simps) (simp add: snoc.IH)
qed

lemma pop_trailing_Cons:
  "pop_trailing (x # xs) =
     (if pop_trailing xs = [] then (if x = ''>'' then [] else [x]) else x # pop_trailing xs)"
  by (simp add: pop_trailing_eq dropWhile_append)

lemma trailing_run:
  "ls = rev (dropWhile (\<lambda>l. l = ''>'') (rev ls)) @
        replicate (length (takeWhile (\<lambda>l. l = ''>'') (rev ls))) ''>''"
proof -
  let ?P = "\<lambda>l. l = ''>''"
  have same: "(\<forall>x\<in>set ys. x = ''>'') \<Longrightarrow> ys = replicate (length ys) ''>''" for ys :: "string list"
    by (induction ys) simp_all
  have "takeWhile ?P (rev ls) = replicate (length (takeWhile ?P (rev ls))) ''>''"
    by (rule same) (auto dest: set_takeWhileD)
  then have "rev (takeWhile ?P (rev ls)) = replicate (length (takeWhile ?P (rev ls))) ''>''"
    by (metis rev_replicate)
  moreover have "ls = rev (dropWhile ?P (rev ls)) @ rev (takeWhile ?P (rev ls))"
    by (metis rev_append rev_rev_ident takeWhile_dropWhile_id)
  ultimately show ?thesis by simp
qed

lemma no_trailing_run:
  "takeWhile (\<lambda>l. l = ''>'') (rev (rev (dropWhile (\<lambda>l. l = ''>'') (rev ls)))) = []"
proof -
  have "takeWhile P (dropWhile P ys) = []" for P :: "string \<Rightarrow> bool" and ys
    by (induction ys) simp_all
  then show ?thesis by simp
qed

text \<open>
  C5. The tip with the title \<open>Good to know\<close>, the paragraph \<open>Hello\<close> and no illustration
  gives the title line, an empty blockquote line and the paragraph line. For every tip the
  assembled lines are some lines \<open>ls\<close> without a trailing empty blockquote line, followed
  by a run of empty blockquote lines; \<open>process_tip\<close> returns \<open>ls\<close> joined by newlines, or
  nothing when \<open>ls\<close> is empty.
\<close>

theorem process_tip_strips_trailing:
  "process_tip
     (Elem ''div'' (Some [''guide-tip'']) None
        [Elem ''h3'' None None [Text ''Good to know''],
         Elem ''p'' None None [Text ''Hello'']]) =
     Some ''> **Good to know**\<newline>>\<newline>> Hello''
   \<and> (\<exists>ls k. tip_lines tip_div = ls @ replicate k ''>''
            \<and> takeWhile (\<lambda>l. l = ''>'') (rev ls) = []
            \<and> process_tip tip_div = (if ls = [] then None else Some (join ''\<newline>'' ls)))"
proof
  show "process_tip
     (Elem ''div'' (Some [''guide-tip'']) None
        [Elem ''h3'' None None [Text ''Good to know''],
         Elem ''p'' None None [Text ''Hello'']]) =
     Some ''> **Good to know**\<newline>>\<newline>> Hello''"
    by (simp add: process_tip_def tip_lines_def tip_title_lines_def find_def find_all_def
          get_text_def strip_def py_isspace_def pop_trailing_eq)
next
  let ?ls = "rev (dropWhile (\<lambda>l. l = ''>'') (rev (tip_lines tip_div)))"
  let ?k = "length (takeWhile (\<lambda>l. l = ''>'') (rev (tip_lines tip_div)))"
  have "tip_lines tip_div = ?ls @ replicate ?k ''>''"
    by (rule trailing_run)
  moreover have "takeWhile (\<lambda>l. l = ''>'') (rev ?ls) = []"
    by (rule no_trailing_run)
  moreover have "process_tip tip_div = (if ?ls = [] then None else Some (join ''\<newline>'' ?ls))"
    by (simp add: process_tip_def pop_trailing_eq)
  ultimately show "\<exists>ls k. tip_lines tip_div = ls @ replicate k ''>''
            \<and> takeWhile (\<lambda>l. l = ''>'') (rev ls) = []
            \<and> process_tip tip_div = (if ls = [] then None else Some (join ''\<newline>'' ls))"
    by blast
qed

lemma tag_matches_name: "tag_matches nm None e = is_elem nm e"
  by (cases e) simp_all

lemma tip_child_lines_other:
  assumes "\<not> (is_elem ''p'' k \<or> is_elem ''div'' k)"
  shows "tip_child_lines k = []"
  using assms by (cases k) simp_all

lemma concat_tip_child_lines: "concat (map tip_child_lines kids) = tip_body_lines kids"
proof (induction kids)
  case Nil
  show ?case by (simp add: tip_body_lines_def)
next
  case (Cons k kids)
  show ?case
  proof (cases "is_elem ''p'' k \<or> is_elem ''div'' k")
    case True
    with Cons show ?thesis by (simp add: tip_body_lines_def)
  next
    case False
    then have "tip_child_lines k = []" by (rule tip_child_lines_other)
    with False Cons show ?thesis by (simp add: tip_body_lines_def)
  qed
qed

lemma tip_body_lines_append:
  "tip_body_lines (xs @ ys) = tip_body_lines xs @ tip_body_lines ys"
  by (simp add: tip_body_lines_def)

text \<open>
  C6, as amended. When an \<open>h3\<close> occurs anywhere below the tip, the lines of the tip are the
  bolded text of the first \<open>h3\<close> in document order, an empty blockquote line, and then
  the lines of the paragraph and division children in their order, and nothing else: the
  title is emitted once and first wherever the header stands. The output is the title line
  alone when no other line remains once the trailing empty lines are removed, and
  otherwise the title line, the empty line and the remaining lines. A child that is
  neither a paragraph nor a division, so a header of any level, adds no line at its
  position. A tip without any \<open>h3\<close> gets no title: its lines are those of its paragraph
  and division children only.
\<close>

theorem process_tip_title:
  assumes "filter (is_elem ''h3'') (descendants (Elem n c s kids)) = title # others"
    and "filter (is_elem ''h3'') (descendants (Elem n' c' s' kids')) = []"
  shows "tip_lines (Elem n c s kids) =
           [''> **'' @ get_text title @ ''**'', ''>''] @ tip_body_lines kids
         \<and> process_tip (Elem n c s kids) =
             Some (join ''\<newline>''
                     ((''> **'' @ get_text title @ ''**'') #
                      (case rev (dropWhile (\<lambda>l. l = ''>'') (rev (tip_body_lines kids))) of
                         [] \<Rightarrow> []
                       | l # ls \<Rightarrow> ''>'' # l # ls)))
         \<and> tip_body_lines (before @ [Elem h hc hs hkids] @ after) =
             (if h = ''p'' \<or> h = ''div''
              then tip_body_lines before @ tip_child_lines (Elem h hc hs hkids) @
                   tip_body_lines after
              else tip_body_lines (before @ after))
         \<and> tip_lines (Elem n' c' s' kids') = tip_body_lines kids'
         \<and> process_tip (Elem n' c' s' kids') =
             (case rev (dropWhile (\<lambda>l. l = ''>'') (rev (tip_body_lines kids'))) of
                [] \<Rightarrow> None
              | l # ls \<Rightarrow> Some (join ''\<newline>'' (l # ls)))"
proof -
  let ?b = "''> **'' @ get_text title @ ''**''"
  have found: "find ''h3'' None (Elem n c s kids) = Some title"
    using assms(1) by (simp add: find_def find_all_def tag_matches_name [abs_def])
  have lines: "tip_lines (Elem n c s kids) = [?b, ''>''] @ tip_body_lines kids"
    using found by (simp add: tip_lines_def tip_title_lines_def concat_tip_child_lines)
  have b: "?b \<noteq> ''>''" by simp
  have popped: "pop_trailing (?b # ''>'' # tip_body_lines kids) =
          ?b # (case pop_trailing (tip_body_lines kids) of [] \<Rightarrow> [] | l # ls \<Rightarrow> ''>'' # l # ls)"
    using b by (simp add: pop_trailing_Cons split: list.splits)
  have out: "process_tip (Elem n c s kids) =
             Some (join ''\<newline>''
                     (?b # (case rev (dropWhile (\<lambda>l. l = ''>'') (rev (tip_body_lines kids))) of
                         [] \<Rightarrow> []
                       | l # ls \<Rightarrow> ''>'' # l # ls)))"
    unfolding process_tip_def lines
    using popped by (simp add: pop_trailing_eq Let_def)
  have position: "tip_body_lines (before @ [Elem h hc hs hkids] @ after) =
             (if h = ''p'' \<or> h = ''div''
              then tip_body_lines before @ tip_child_lines (Elem h hc hs hkids) @
                   tip_body_lines after
              else tip_body_lines (before @ after))"
    by (simp add: tip_body_lines_def)
  have none: "find ''h3'' None (Elem n' c' s' kids') = None"
    using assms(2) by (simp add: find_def find_all_def tag_matches_name [abs_def])
  have lines': "tip_lines (Elem n' c' s' kids') = tip_body_lines kids'"
    using none by (simp add: tip_lines_def tip_title_lines_def concat_tip_child_lines)
  have out': "process_tip (Elem n' c' s' kids') =
             (case rev (dropWhile (\<lambda>l. l = ''>'') (rev (tip_body_lines kids'))) of
                [] \<Rightarrow> None
              | l # ls \<Rightarrow> Some (join ''\<newline>'' (l # ls)))"
  proof -
    define sb where "sb = rev (dropWhile (\<lambda>l. l = ''>'') (rev (tip_body_lines kids')))"
    have "process_tip (Elem n' c' s' kids') =
            (if sb \<noteq> [] then Some (join ''\<newline>'' sb) else None)"
      unfolding process_tip_def lines' pop_trailing_eq sb_def Let_def ..
    then have "process_tip (Elem n' c' s' kids') =
            (case sb of [] \<Rightarrow> None | l # ls \<Rightarrow> Some (join ''\<newline>'' (l # ls)))"
      by (cases sb) simp_all
    then show ?thesis unfolding sb_def .
  qed
  from lines out position lines' out' show ?thesis
    by (intro conjI)
qed


theorem process_tip_title_witness:
  "process_tip
     (Elem ''div'' (Some [''guide-tip'']) None
        [Elem ''p'' None None [Text ''See '', Elem ''h3'' None None [Text ''Deep'']],
         Elem ''h3'' None None [Text ''Top''],
         Elem ''p'' None None [Text ''Bye'']]) =
     Some ''> **Deep**\<newline>>\<newline>> See Deep\<newline>>\<newline>> Bye''
   \<and> process_tip
       (Elem ''div'' (Some [''guide-tip'']) None
          [Elem ''h4'' None None [Text ''Note''], Elem ''p'' None None [Text ''Hello'']]) =
       Some ''> Hello''"
proof -
  let ?deep = "Elem ''h3'' None None [Text ''Deep'']"
  let ?top = "Elem ''h3'' None None [Text ''Top'']"
  let ?kids = "[Elem ''p'' None None [Text ''See '', ?deep], ?top,
                Elem ''p'' None None [Text ''Bye'']]"
  let ?kids' = "[Elem ''h4'' None None [Text ''Note''], Elem ''p'' None None [Text ''Hello'']]"
  have first: "filter (is_elem ''h3'')
                 (descendants (Elem ''div'' (Some [''guide-tip'']) None ?kids)) = ?deep # [?top]"
    by simp
  have none: "filter (is_elem ''h3'')
                (descendants (Elem ''div'' (Some [''guide-tip'']) None ?kids')) = []"
    by simp
  have body: "tip_body_lines ?kids = [''> See Deep'', ''>'', ''> Bye'', ''>'']"
    by (simp add: tip_body_lines_def get_text_def strip_def py_isspace_def)
  have body': "tip_body_lines ?kids' = [''> Hello'', ''>'']"
    by (simp add: tip_body_lines_def get_text_def strip_def py_isspace_def)
  show ?thesis
    using process_tip_title [OF first none]
    unfolding body body'
    by (simp add: get_text_def)
qed

text \<open>A tip whose header is an \<open>h5\<close>: no title line is emitted for it.\<close>

theorem process_tip_h5_title_counterexample:
  "process_tip
     (Elem ''div'' (Some [''guide-tip'']) None
        [Elem ''h5'' None None [Text ''Good to know''],
         Elem ''p'' None None [Text ''Hello'']]) = Some ''> Hello''"
  by (simp add: process_tip_def tip_lines_def tip_title_lines_def find_def find_all_def
        get_text_def strip_def py_isspace_def pop_trailing_eq)

lemma img_src_caption_divs: "img_src (caption_divs ds st) = img_src st"
  by (induction ds st rule: caption_divs.induct) (simp_all split: prod.splits)

lemma img_src_illustration_scan:
  "img_src (illustration_scan kids st) =
     (if usable_imgs kids = [] then img_src st else Some (get_src (last (usable_imgs kids))))"
proof (induction kids st rule: illustration_scan.induct)
  case (1 st)
  show ?case by (simp add: usable_imgs_def)
next
  case (2 s rest st)
  then show ?case by (simp add: usable_imgs_def)
next
  case (3 n c s kids rest st)
  then show ?case
    by (simp add: usable_imgs_def img_src_caption_divs Let_def)
qed

lemma usable_imgs_src:
  assumes "usable_imgs kids \<noteq> []"
  shows "get_src (last (usable_imgs kids)) \<noteq> []"
proof -
  have "last (usable_imgs kids) \<in> set (usable_imgs kids)"
    using assms by (rule last_in_set)
  then show ?thesis by (simp add: usable_imgs_def)
qed

lemma figure_lines_none: "img_src st = None \<Longrightarrow> figure_lines st = []"
  by (simp add: figure_lines_def)

lemma figure_lines_some:
  assumes "img_src st = Some src" and "src \<noteq> []"
  shows "\<exists>caption. figure_lines st =
           [''>'',
            ''> <figure><img src='' @ [CHR 0x22] @ src @ [CHR 0x22] @ '' alt='' @ [CHR 0x22]
              @ ''Illustration'' @ [CHR 0x22] @ ''>'' @ caption @ ''</figure>'',
            ''>'']"
proof -
  define html where
    "html = concat ((case caption_german st of
                      None \<Rightarrow> [] | Some g \<Rightarrow> if g \<noteq> [] then [g] else []) @
                   (case caption_english st of
                      None \<Rightarrow> []
                    | Some e \<Rightarrow> if e \<noteq> [] then [''<br><em>'' @ e @ ''</em>''] else []))"
  have fl: "figure_lines st =
           [''>'',
            (if html \<noteq> []
                  then ''> <figure><img src='' @ [CHR 0x22] @ src @ [CHR 0x22] @ '' alt='' @ [CHR 0x22]
                       @ ''Illustration'' @ [CHR 0x22] @ ''><figcaption>''
                       @ html @ ''</figcaption></figure>''
                  else ''> <figure><img src='' @ [CHR 0x22] @ src @ [CHR 0x22] @ '' alt='' @ [CHR 0x22]
                       @ ''Illustration'' @ [CHR 0x22] @ ''></figure>''),
            ''>'']"
    unfolding figure_lines_def Let_def html_def [symmetric] assms(1)
    using assms(2) by (simp only: option.case if_False)
  show ?thesis
  proof (cases "html = []")
    case True
    show ?thesis
    proof (intro exI)
      show "figure_lines st =
           [''>'',
            ''> <figure><img src='' @ [CHR 0x22] @ src @ [CHR 0x22] @ '' alt='' @ [CHR 0x22]
              @ ''Illustration'' @ [CHR 0x22] @ ''>'' @ [] @ ''</figure>'',
            ''>'']"
        unfolding fl using True by simp
    qed
  next
    case False
    show ?thesis
    proof (intro exI)
      show "figure_lines st =
           [''>'',
            ''> <figure><img src='' @ [CHR 0x22] @ src @ [CHR 0x22] @ '' alt='' @ [CHR 0x22]
              @ ''Illustration'' @ [CHR 0x22] @ ''>'' @ (''<figcaption>'' @ html @ ''</figcaption>'')
              @ ''</figure>'',
            ''>'']"
        unfolding fl using False by simp
    qed
  qed
qed

text \<open>
  C8, as amended. An illustration among the children of a tip contributes, at its position
  among the lines of the tip, nothing when none of its \<open>img\<close> children has a source that
  is non-empty and free of \<open>yandex\<close>; otherwise it contributes an empty blockquote line,
  one figure line whose image source is that of the last such \<open>img\<close> child, and another
  empty blockquote line.
\<close>

theorem process_tip_illustration:
  assumes "''illustration'' \<in> set (get_class (Elem ''div'' c s kids))"
  shows "\<exists>caption.
           tip_lines (Elem n tc ts (before @ [Elem ''div'' c s kids] @ after)) =
             tip_title_lines (Elem n tc ts (before @ [Elem ''div'' c s kids] @ after)) @
             concat (map tip_child_lines before) @
             (if usable_imgs kids = [] then []
              else [''>'',
                    ''> <figure><img src='' @ [CHR 0x22] @ get_src (last (usable_imgs kids))
                      @ [CHR 0x22] @ '' alt='' @ [CHR 0x22] @ ''Illustration'' @ [CHR 0x22]
                      @ ''>'' @ caption @ ''</figure>'',
                    ''>'']) @
             concat (map tip_child_lines after)"
proof -
  let ?st = "illustration_scan kids
               \<lparr>img_src = None, caption_german = None, caption_english = None\<rparr>"
  have child: "tip_child_lines (Elem ''div'' c s kids) = figure_lines ?st"
    using assms by simp
  show ?thesis
  proof (cases "usable_imgs kids = []")
    case True
    then have "img_src ?st = None"
      by (simp add: img_src_illustration_scan)
    then have "figure_lines ?st = []"
      by (rule figure_lines_none)
    with True child show ?thesis
      by (simp add: tip_lines_def)
  next
    case False
    then have "img_src ?st = Some (get_src (last (usable_imgs kids)))"
      by (simp add: img_src_illustration_scan)
    moreover have "get_src (last (usable_imgs kids)) \<noteq> []"
      using False by (rule usable_imgs_src)
    ultimately have "\<exists>caption. figure_lines ?st =
           [''>'',
            ''> <figure><img src='' @ [CHR 0x22] @ get_src (last (usable_imgs kids)) @ [CHR 0x22]
              @ '' alt='' @ [CHR 0x22] @ ''Illustration'' @ [CHR 0x22] @ ''>'' @ caption
              @ ''</figure>'',
            ''>'']"
      by (rule figure_lines_some)
    then obtain caption where fig: "figure_lines ?st =
           [''>'',
            ''> <figure><img src='' @ [CHR 0x22] @ get_src (last (usable_imgs kids)) @ [CHR 0x22]
              @ '' alt='' @ [CHR 0x22] @ ''Illustration'' @ [CHR 0x22] @ ''>'' @ caption
              @ ''</figure>'',
            ''>'']" ..
    show ?thesis
    proof (intro exI)
      show "tip_lines (Elem n tc ts (before @ [Elem ''div'' c s kids] @ after)) =
             tip_title_lines (Elem n tc ts (before @ [Elem ''div'' c s kids] @ after)) @
             concat (map tip_child_lines before) @
             (if usable_imgs kids = [] then []
              else [''>'',
                    ''> <figure><img src='' @ [CHR 0x22] @ get_src (last (usable_imgs kids))
                      @ [CHR 0x22] @ '' alt='' @ [CHR 0x22] @ ''Illustration'' @ [CHR 0x22]
                      @ ''>'' @ caption @ ''</figure>'',
                    ''>'']) @
             concat (map tip_child_lines after)"
        unfolding tip_lines_def using False child fig by simp
    qed
  qed
qed

theorem process_tip_illustration_witness:
  "\<exists>caption.
     tip_lines
       (Elem ''div'' (Some [''guide-tip'']) None
          ([Elem ''p'' None None [Text ''Hello'']] @
           [Elem ''div'' (Some [''illustration'']) None
              [Elem ''img'' None (Some ''a.png'') [],
               Elem ''img'' None (Some ''b.png'') [],
               Elem ''img'' None (Some ''https://mc.yandex.ru/watch/1'') []]] @
           [])) =
     [''> Hello'', ''>'', ''>'',
      ''> <figure><img src='' @ [CHR 0x22] @ ''b.png'' @ [CHR 0x22] @ '' alt='' @ [CHR 0x22]
        @ ''Illustration'' @ [CHR 0x22] @ ''>'' @ caption @ ''</figure>'',
      ''>'']"
proof -
  let ?kids = "[Elem ''img'' None (Some ''a.png'') [],
               Elem ''img'' None (Some ''b.png'') [],
               Elem ''img'' None (Some ''https://mc.yandex.ru/watch/1'') []]"
  have c: "''illustration'' \<in> set (get_class (Elem ''div'' (Some [''illustration'']) None ?kids))"
    by simp
  have u: "usable_imgs ?kids =
             [Elem ''img'' None (Some ''a.png'') [], Elem ''img'' None (Some ''b.png'') []]"
    by (simp add: usable_imgs_def)
  from process_tip_illustration
         [OF c, of "''div''" "Some [''guide-tip'']" None
            "[Elem ''p'' None None [Text ''Hello'']]" "[]"]
  obtain caption where eq:
    "tip_lines
       (Elem ''div'' (Some [''guide-tip'']) None
          ([Elem ''p'' None None [Text ''Hello'']] @
           [Elem ''div'' (Some [''illustration'']) None ?kids] @ [])) =
     tip_title_lines
       (Elem ''div'' (Some [''guide-tip'']) None
          ([Elem ''p'' None None [Text ''Hello'']] @
           [Elem ''div'' (Some [''illustration'']) None ?kids] @ [])) @
     concat (map tip_child_lines [Elem ''p'' None None [Text ''Hello'']]) @
     (if usable_imgs ?kids = [] then []
      else [''>'',
            ''> <figure><img src='' @ [CHR 0x22] @ get_src (last (usable_imgs ?kids))
              @ [CHR 0x22] @ '' alt='' @ [CHR 0x22] @ ''Illustration'' @ [CHR 0x22]
              @ ''>'' @ caption @ ''</figure>'',
            ''>'']) @
     concat (map tip_child_lines [])" ..
  show ?thesis
  proof (intro exI)
    show "tip_lines
       (Elem ''div'' (Some [''guide-tip'']) None
          ([Elem ''p'' None None [Text ''Hello'']] @
           [Elem ''div'' (Some [''illustration'']) None ?kids] @ [])) =
     [''> Hello'', ''>'', ''>'',
      ''> <figure><img src='' @ [CHR 0x22] @ ''b.png'' @ [CHR 0x22] @ '' alt='' @ [CHR 0x22]
        @ ''Illustration'' @ [CHR 0x22] @ ''>'' @ caption @ ''</figure>'',
      ''>'']"
      unfolding eq u
      by (simp add: tip_title_lines_def find_def find_all_def get_text_def strip_def
            py_isspace_def)
  qed
qed

text \<open>
  An illustration whose last \<open>img\<close> child has an empty source: that source does not
  contain \<open>yandex\<close>, yet the figure shows the image before it.
\<close>

theorem process_tip_empty_src_counterexample:
  "claimed_img_src
     [Elem ''img'' None (Some ''a.png'') [], Elem ''img'' None (Some []) []] = Some []
   \<and> img_src
       (illustration_scan
          [Elem ''img'' None (Some ''a.png'') [], Elem ''img'' None (Some []) []]
          \<lparr>img_src = None, caption_german = None, caption_english = None\<rparr>) = Some ''a.png''
   \<and> process_tip
       (Elem ''div'' (Some [''guide-tip'']) None
          [Elem ''div'' (Some [''illustration'']) None
             [Elem ''img'' None (Some ''a.png'') [], Elem ''img'' None (Some []) []]]) =
       Some (''>\<newline>> <figure><img src='' @ [CHR 0x22] @ ''a.png'' @ [CHR 0x22] @ '' alt=''
             @ [CHR 0x22] @ ''Illustration'' @ [CHR 0x22] @ ''></figure>'')"
  by (simp add: claimed_img_src_def process_tip_def tip_lines_def tip_title_lines_def find_def
        find_all_def figure_lines_def pop_trailing_eq)

end
